theory Spec2Isabelle
  imports Main "HOL-Library.Word"
begin

unbundle bit_operations_syntax

section \<open>Machine types and constants\<close>

text \<open>
  A Go \<open>byte\<close> is an 8-bit word and a \<open>uint32\<close> a 32-bit word. A Go string is an
  immutable byte sequence, so strings and byte slices are both byte lists; a literal is
  written \<open>bytes_of ''...''\<close>. The model takes the gc compiler on a 64-bit little-endian
  target (amd64, arm64): \<open>int\<close> is 64 bits wide, and the first byte of a \<open>uint32\<close> in
  memory is its least significant one. Values of type \<open>int\<close> and \<open>int64\<close> that the
  program only compares, adds and divides far below \<open>2 ^ 63\<close> (page numbers, offsets,
  the file length) are HOL integers; where the program truncates an \<open>int\<close>
  (\<open>uint32(id + 1)\<close>) it is a 64-bit word.
\<close>

type_synonym byte = "8 word"
type_synonym uint32 = "32 word"
type_synonym int64 = "64 word"

definition bytes_of :: "string \<Rightarrow> byte list" where
  "bytes_of s = map of_char s"

definition ColumnUsernameSize :: nat where
  "ColumnUsernameSize = 32"

definition ColumnEmailSize :: nat where
  "ColumnEmailSize = 255"

text \<open>
  \<open>RowSize = uint32(unsafe.Sizeof(Row{}))\<close>: the fields take \<open>4 + 32 + 255 = 291\<close>
  bytes and the struct is padded to a multiple of the alignment of \<open>uint32\<close>, which is 4.
\<close>

definition RowSize :: nat where
  "RowSize = ((4 + ColumnUsernameSize + ColumnEmailSize + 3) div 4) * 4"

definition PageSize :: nat where
  "PageSize = 4096"

definition TableMaxPages :: nat where
  "TableMaxPages = 100"

definition RowsPerPage :: nat where
  "RowsPerPage = PageSize div RowSize"

definition TableMaxRows :: nat where
  "TableMaxRows = RowsPerPage * TableMaxPages"

text \<open>Go's \<open>/\<close> and \<open>%\<close> on signed integers truncate towards zero.\<close>

definition go_div :: "int \<Rightarrow> int \<Rightarrow> int" where
  "go_div a b = sgn a * sgn b * (\<bar>a\<bar> div \<bar>b\<bar>)"

definition go_mod :: "int \<Rightarrow> int \<Rightarrow> int" where
  "go_mod a b = a - b * go_div a b"

text \<open>
  The builtin \<open>copy(dst, src)\<close> overwrites the first \<open>min(len(dst), len(src))\<close>
  elements of \<open>dst\<close>; the result is \<open>dst\<close> afterwards.
\<close>

definition copy_bytes :: "byte list \<Rightarrow> byte list \<Rightarrow> byte list" where
  "copy_bytes dst src =
     (let n = min (length dst) (length src) in take n src @ drop n dst)"

text \<open>\<open>copy(dst[off:], src)\<close> for \<open>off \<le> len(dst)\<close>.\<close>

definition copy_at :: "byte list \<Rightarrow> nat \<Rightarrow> byte list \<Rightarrow> byte list" where
  "copy_at dst off src = take off dst @ copy_bytes (drop off dst) src"

text \<open>The verb \<open>%d\<close> of package fmt on a non-negative integer.\<close>

function decimal :: "nat \<Rightarrow> byte list" where
  "decimal n =
     (if n < 10 then [of_nat (48 + n)]
      else decimal (n div 10) @ [of_nat (48 + n mod 10)])"
  by pat_completeness auto
termination
  by (relation "measure id") auto

declare decimal.simps [simp del]

definition decimal_int :: "int \<Rightarrow> byte list" where
  "decimal_int i = (if i < 0 then bytes_of ''-'' @ decimal (nat (- i)) else decimal (nat i))"

section \<open>Row codec (the persistent version, package db with the pager)\<close>

record Row =
  ID :: uint32
  Username :: "byte list"
  Email :: "byte list"

text \<open>The four bytes of a \<open>uint32\<close> in memory, and the value four bytes hold.\<close>

definition le32 :: "uint32 \<Rightarrow> byte list" where
  "le32 w = [ucast w, ucast (drop_bit 8 w), ucast (drop_bit 16 w), ucast (drop_bit 24 w)]"

fun un_le32 :: "byte list \<Rightarrow> uint32" where
  "un_le32 (b0 # b1 # b2 # b3 # bs) =
     ucast b0 OR push_bit 8 (ucast b1) OR push_bit 16 (ucast b2) OR push_bit 24 (ucast b3)"
| "un_le32 bs = 0"

text \<open>
  \<open>Seralize\<close> reinterprets the memory of the row as \<open>[RowSize]byte\<close>: the key at offset
  0, the username at offset 4, the email at offset 36 and the padding up to \<open>RowSize\<close>,
  which is zero in a row built by a composite literal.
\<close>

definition Seralize :: "Row \<Rightarrow> byte list" where
  "Seralize r =
     le32 (ID r) @ Username r @ Email r
       @ replicate (RowSize - (4 + ColumnUsernameSize + ColumnEmailSize)) 0"

text \<open>
  \<open>DeseralizeRow\<close> reads the same memory back as a row. Its argument is a
  \<open>[RowSize]byte\<close>, so the second equation of \<open>un_le32\<close> is never the one used.
\<close>

definition DeseralizeRow :: "byte list \<Rightarrow> Row" where
  "DeseralizeRow source =
     \<lparr>ID = un_le32 source,
      Username = take ColumnUsernameSize (drop 4 source),
      Email = take ColumnEmailSize (drop (4 + ColumnUsernameSize) source)\<rparr>"

text \<open>\<open>bytes.IndexByte\<close>: the index of the first occurrence, or \<open>-1\<close>.\<close>

fun IndexByte :: "byte list \<Rightarrow> byte \<Rightarrow> int" where
  "IndexByte [] c = - 1"
| "IndexByte (b # bs) c =
     (if b = c then 0
      else (let i = IndexByte bs c in if i = - 1 then - 1 else i + 1))"

text \<open>\<open>Row.String\<close>; the key is printed as \<open>r.ID - 1\<close>, a \<open>uint32\<close> subtraction.\<close>

definition Row_String :: "Row \<Rightarrow> byte list" where
  "Row_String r =
     (let userLen = IndexByte (Username r) 0;
          userLen = (if userLen = - 1 then int ColumnUsernameSize else userLen);
          emailLen = IndexByte (Email r) 0;
          emailLen = (if emailLen = - 1 then int ColumnEmailSize else emailLen)
      in bytes_of ''('' @ decimal (unat (ID r - 1)) @ bytes_of '', ''
           @ take (nat userLen) (Username r) @ bytes_of '', ''
           @ take (nat emailLen) (Email r) @ bytes_of '')'')"

text \<open>
  The row that \<open>prepareStatement\<close> builds: a composite literal with the key, whose arrays
  are zero, and a \<open>copy\<close> into each array.
\<close>

definition new_Row :: "uint32 \<Rightarrow> byte list \<Rightarrow> byte list \<Rightarrow> Row" where
  "new_Row k username email =
     \<lparr>ID = k,
      Username = copy_bytes (replicate ColumnUsernameSize 0) username,
      Email = copy_bytes (replicate ColumnEmailSize 0) email\<rparr>"

section \<open>Results, errors and the backing file\<close>

text \<open>
  The values of type \<open>error\<close> that the storage layer returns, and the run-time panics it
  can raise. A \<open>PathError\<close> is the error of package os: operation, file name and cause.
\<close>

datatype error =
    FetchOutOfBounds int
  | FlushOutOfBounds int
  | CursorNil
  | PathError "byte list" "byte list" "byte list"

datatype panic =
    IndexOutOfRange int nat
  | NilDereference
  | PanicError error

text \<open>A call returns its values, returns a non-nil error, or panics.\<close>

datatype 'a result = Ok 'a | Err error | Panic panic

text \<open>The text \<open>%v\<close> prints for an error.\<close>

definition error_text :: "error \<Rightarrow> byte list" where
  "error_text e =
     (case e of
        FetchOutOfBounds n \<Rightarrow>
          bytes_of ''Tried to fetch page number out of bounds. '' @ decimal_int n
            @ bytes_of '' > '' @ decimal TableMaxPages @ [10]
      | FlushOutOfBounds n \<Rightarrow>
          bytes_of ''Tried to flush page number out of bounds. '' @ decimal_int n
            @ bytes_of '' > '' @ decimal TableMaxPages @ [10]
      | CursorNil \<Rightarrow> bytes_of ''cur is nil''
      | PathError operation path cause \<Rightarrow>
          operation @ bytes_of '' '' @ path @ bytes_of '': '' @ cause)"

text \<open>
  The backing file: its name, its bytes, and the environment's I/O failures.
  \<open>read_fault f off = Some cause\<close> says that the operating system fails a read at offset
  \<open>off\<close> with an error other than end of file; \<open>write_fault\<close> likewise for a write.
\<close>

record File =
  fname :: "byte list"
  content :: "byte list"
  read_fault :: "int \<Rightarrow> byte list option"
  write_fault :: "int \<Rightarrow> byte list option"

text \<open>
  \<open>File.ReadAt(b, off)\<close> with \<open>len(b) = n\<close>. \<open>Inr bs\<close> stands for the return of
  \<open>len(bs)\<close> bytes read with the error \<open>nil\<close>, or \<open>io.EOF\<close> when \<open>len(bs) < n\<close>; the
  callers treat the two alike. \<open>Inl e\<close> is any other error.
\<close>

definition ReadAt :: "File \<Rightarrow> nat \<Rightarrow> int \<Rightarrow> error + byte list" where
  "ReadAt f n off =
     (if off < 0 then Inl (PathError (bytes_of ''readat'') (fname f) (bytes_of ''negative offset''))
      else (case read_fault f off of
              Some cause \<Rightarrow> Inl (PathError (bytes_of ''read'') (fname f) cause)
            | None \<Rightarrow> Inr (take n (drop (nat off) (content f)))))"

text \<open>\<open>File.WriteAt(b, off)\<close>: a write past the end leaves a hole of zero bytes.\<close>

definition WriteAt :: "File \<Rightarrow> byte list \<Rightarrow> int \<Rightarrow> error + File" where
  "WriteAt f b off =
     (if off < 0 then Inl (PathError (bytes_of ''writeat'') (fname f) (bytes_of ''negative offset''))
      else (case write_fault f off of
              Some cause \<Rightarrow> Inl (PathError (bytes_of ''write'') (fname f) cause)
            | None \<Rightarrow>
                (let c = content f @ replicate (nat off - length (content f)) 0
                 in Inr (f\<lparr>content := take (nat off) c @ b @ drop (nat off + length b) c\<rparr>))))"

section \<open>Pager\<close>

text \<open>
  A \<open>Page\<close> is \<open>[RowsPerPage][RowSize]byte\<close>. The pager's \<open>pages\<close> is an array of
  \<open>TableMaxPages\<close> pointers, \<open>nil\<close> for a page that is not loaded; it is a function of
  the index here, and the bounds check of every indexing is written out in the
  operations. A \<open>*Page\<close> that \<open>Get\<close> returns points to the page in the cache, so a write
  through it is an update of the cache entry.
\<close>

type_synonym Page = "byte list list"

record Pager =
  backing :: File
  Length :: int
  pages :: "nat \<Rightarrow> Page option"

definition new_Page :: Page where
  "new_Page = replicate RowsPerPage (replicate RowSize 0)"

text \<open>
  The loop of \<open>Get\<close> that converts the read buffer to a page:
  \<open>for row := 0; row < int(RowsPerPage); row++\<close>, leaving at the first row whose
  offset is not below \<open>bytesRead\<close>.
\<close>

function load_rows :: "nat \<Rightarrow> nat \<Rightarrow> byte list \<Rightarrow> Page \<Rightarrow> Page" where
  "load_rows row bytesRead pageByte page =
     (if row < RowsPerPage then
        (let rowOffset = row * RowSize
         in if rowOffset \<ge> bytesRead then page
            else load_rows (row + 1) bytesRead pageByte
                   (page[row := copy_bytes (page ! row) (drop rowOffset pageByte)]))
      else page)"
  by pat_completeness auto
termination
  by (relation "measure (\<lambda>(row, bytesRead, pageByte, page). RowsPerPage - row)") auto

declare load_rows.simps [simp del]

definition Get :: "Pager \<Rightarrow> int \<Rightarrow> (Page \<times> Pager) result" where
  "Get p pageNum =
     (if pageNum > int TableMaxPages then Err (FetchOutOfBounds pageNum)
      else if pageNum < 0 \<or> int TableMaxPages \<le> pageNum
      then Panic (IndexOutOfRange pageNum TableMaxPages)
      else
        (case pages p (nat pageNum) of
           Some page \<Rightarrow> Ok (page, p)
         | None \<Rightarrow>
             (let numberOfPages = go_div (Length p) (int PageSize);
                  numberOfPages =
                    (if go_mod (Length p) (int PageSize) \<noteq> 0 then numberOfPages + 1
                     else numberOfPages)
              in if pageNum < numberOfPages then
                   (case ReadAt (backing p) PageSize (pageNum * int PageSize) of
                      Inl e \<Rightarrow> Err e
                    | Inr bs \<Rightarrow>
                        (let pageByte = bs @ replicate (PageSize - length bs) 0;
                             page = load_rows 0 (length bs) pageByte new_Page
                         in Ok (page, p\<lparr>pages := (pages p)(nat pageNum := Some page)\<rparr>)))
                 else Ok (new_Page, p\<lparr>pages := (pages p)(nat pageNum := Some new_Page)\<rparr>))))"

text \<open>The loop of \<open>Flush\<close> that flattens a page into the write buffer.\<close>

function flatten_rows :: "nat \<Rightarrow> Page \<Rightarrow> byte list \<Rightarrow> byte list" where
  "flatten_rows row page pageByte =
     (if row < RowsPerPage
      then flatten_rows (row + 1) page (copy_at pageByte (row * RowSize) (page ! row))
      else pageByte)"
  by pat_completeness auto
termination
  by (relation "measure (\<lambda>(row, page, pageByte). RowsPerPage - row)") auto

declare flatten_rows.simps [simp del]

definition Flush :: "Pager \<Rightarrow> int \<Rightarrow> Pager result" where
  "Flush p pageNum =
     (if pageNum > int TableMaxPages then Err (FlushOutOfBounds pageNum)
      else if pageNum < 0 \<or> int TableMaxPages \<le> pageNum
      then Panic (IndexOutOfRange pageNum TableMaxPages)
      else
        (case pages p (nat pageNum) of
           None \<Rightarrow> Ok p
         | Some page \<Rightarrow>
             (case WriteAt (backing p) (flatten_rows 0 page (replicate PageSize 0))
                     (pageNum * int PageSize) of
                Inl e \<Rightarrow> Err e
              | Inr f \<Rightarrow> Ok (p\<lparr>backing := f\<rparr>))))"

text \<open>
  The loop of \<open>numberOfRowsOnDisk\<close> over the row-slots of the last page, leaving at the
  first slot whose key is zero.
\<close>

function count_rows :: "nat \<Rightarrow> byte list \<Rightarrow> nat \<Rightarrow> nat" where
  "count_rows i pageByte numRows =
     (if i < RowsPerPage then
        (let start = i * RowSize;
             end = start + RowSize;
             rowByte = copy_bytes (replicate RowSize 0) (drop start (take end pageByte));
             row = DeseralizeRow rowByte
         in if ID row = 0 then numRows else count_rows (i + 1) pageByte (numRows + 1))
      else numRows)"
  by pat_completeness auto
termination
  by (relation "measure (\<lambda>(i, pageByte, numRows). RowsPerPage - i)") auto

declare count_rows.simps [simp del]

definition numberOfRowsOnDisk :: "Pager \<Rightarrow> int result" where
  "numberOfRowsOnDisk p =
     (if Length p = 0 then Ok 0
      else
        (let numberOfPages = go_div (Length p) (int PageSize);
             lastPageOffset = (numberOfPages - 1) * int PageSize
         in case ReadAt (backing p) PageSize lastPageOffset of
              Inl e \<Rightarrow> Panic (PanicError e)
            | Inr bs \<Rightarrow>
                (let pageByte = bs @ replicate (PageSize - length bs) 0
                 in if length bs = 0
                    then Ok (go_div (numberOfPages - 1) (int RowsPerPage) + 0)
                    else Ok (go_div (numberOfPages - 1) (int RowsPerPage)
                               + int (count_rows 0 pageByte 0)))))"

text \<open>
  \<open>NewPager\<close> on a file that opens: the length is what \<open>Seek(0, 2)\<close> returns, and no
  page is loaded.
\<close>

definition NewPager :: "File \<Rightarrow> Pager" where
  "NewPager file = \<lparr>backing = file, Length = int (length (content file)), pages = (\<lambda>i. None)\<rparr>"

section \<open>Table and cursor\<close>

record Table =
  NumRows :: uint32
  Pager :: Pager

definition DBOpen :: "File \<Rightarrow> Table result" where
  "DBOpen file =
     (let pager = NewPager file
      in case numberOfRowsOnDisk pager of
           Ok n \<Rightarrow> Ok \<lparr>NumRows = word_of_int n, Pager = pager\<rparr>
         | Err e \<Rightarrow> Err e
         | Panic x \<Rightarrow> Panic x)"

text \<open>
  \<open>RowSlot\<close> and \<open>Cursor.Value\<close> return a pointer to a row-slot of a cached page; the
  model returns the bytes of the slot and the table with its pager after the call.
\<close>

definition RowSlot :: "Table \<Rightarrow> uint32 \<Rightarrow> (byte list \<times> Table) result" where
  "RowSlot tbl rowNum =
     (let pageNum = rowNum div of_nat RowsPerPage;
          rowOffset = rowNum mod of_nat RowsPerPage
      in case Get (Pager tbl) (uint pageNum) of
           Err e \<Rightarrow> Err e
         | Panic x \<Rightarrow> Panic x
         | Ok (page, pager) \<Rightarrow> Ok (page ! unat rowOffset, tbl\<lparr>Pager := pager\<rparr>))"

definition insertRow :: "Table \<Rightarrow> uint32 \<Rightarrow> Row \<Rightarrow> Table result" where
  "insertRow tbl rowNum row =
     (let pageNum = rowNum div of_nat RowsPerPage;
          rowOffset = rowNum mod of_nat RowsPerPage
      in case Get (Pager tbl) (uint pageNum) of
           Err e \<Rightarrow> Err e
         | Panic x \<Rightarrow> Panic x
         | Ok (page, pager) \<Rightarrow>
             Ok (tbl\<lparr>Pager := pager\<lparr>pages := (pages pager)
                   (unat pageNum := Some (page[unat rowOffset := Seralize row]))\<rparr>\<rparr>))"

text \<open>
  A cursor holds a pointer to its table; the operations take the table as an argument.
  \<open>None\<close> is the \<open>nil\<close> cursor.
\<close>

record Cursor =
  rowNumber :: uint32
  EndOfTable :: bool

definition CursorAtStart :: "Table \<Rightarrow> Cursor" where
  "CursorAtStart tbl = \<lparr>rowNumber = 0, EndOfTable = (NumRows tbl = 0)\<rparr>"

definition CursorAtEnd :: "Table \<Rightarrow> Cursor" where
  "CursorAtEnd tbl = \<lparr>rowNumber = NumRows tbl, EndOfTable = True\<rparr>"

definition Advance :: "Cursor option \<Rightarrow> Table \<Rightarrow> Cursor option" where
  "Advance c tbl =
     (case c of
        None \<Rightarrow> None
      | Some cur \<Rightarrow>
          (let cur = cur\<lparr>rowNumber := rowNumber cur + 1\<rparr>
           in if rowNumber cur \<ge> NumRows tbl then Some (cur\<lparr>EndOfTable := True\<rparr>)
              else Some cur))"

definition Value :: "Cursor option \<Rightarrow> Table \<Rightarrow> (byte list \<times> Table) result" where
  "Value c tbl =
     (case c of
        None \<Rightarrow> Err CursorNil
      | Some cur \<Rightarrow>
          (let rowNum = rowNumber cur;
               pageNum = rowNum div of_nat RowsPerPage;
               rowOffset = rowNum mod of_nat RowsPerPage
           in case Get (Pager tbl) (uint pageNum) of
                Err e \<Rightarrow> Err e
              | Panic x \<Rightarrow> Panic x
              | Ok (page, pager) \<Rightarrow> Ok (page ! unat rowOffset, tbl\<lparr>Pager := pager\<rparr>)))"

section \<open>Statements\<close>

datatype PrepareResult =
    PrepareSuccess
  | PrepareUnrecognizedStatement
  | PrepareSyntaxError
  | PrepareStringTooLong
  | PrepareNegativeID

datatype ExecuteResult = ExecuteSuccess | ExecuteTableFull | ExecuteFailedFile

datatype StatementType = StatementInsert | StatementSelect

record Statement =
  Type :: StatementType
  InsertRow :: "Row option"

text \<open>
  The \<open>insert\<close> case of \<open>prepareStatement\<close> from the point where \<open>fmt.Sscanf\<close> has
  scanned \<open>id\<close>, \<open>username\<close> and \<open>email\<close> without an error. \<open>idv\<close> is the \<open>int\<close>
  that the source calls \<open>id\<close>; the key is \<open>uint32(id + 1)\<close>.
\<close>

definition prepareStatement_insert ::
    "int64 \<Rightarrow> byte list \<Rightarrow> byte list \<Rightarrow> Statement option \<times> PrepareResult" where
  "prepareStatement_insert idv username email =
     (if length username > ColumnUsernameSize then (None, PrepareStringTooLong)
      else if length email > ColumnEmailSize then (None, PrepareStringTooLong)
      else if sint idv < 0 then (None, PrepareNegativeID)
      else (Some \<lparr>Type = StatementInsert,
                   InsertRow = Some (new_Row (ucast (idv + 1)) username email)\<rparr>,
            PrepareSuccess))"

text \<open>
  \<open>executeInsert\<close> calls \<open>insertRow\<close> as a statement: the error it returns is dropped.
\<close>

definition executeInsert :: "Table \<Rightarrow> Row \<Rightarrow> (ExecuteResult \<times> Table) result" where
  "executeInsert tbl row =
     (if NumRows tbl \<ge> of_nat TableMaxRows then Ok (ExecuteTableFull, tbl)
      else
        (case insertRow tbl (NumRows tbl) row of
           Panic x \<Rightarrow> Panic x
         | Err e \<Rightarrow> Ok (ExecuteSuccess, tbl\<lparr>NumRows := NumRows tbl + 1\<rparr>)
         | Ok tbl' \<Rightarrow> Ok (ExecuteSuccess, tbl'\<lparr>NumRows := NumRows tbl' + 1\<rparr>)))"

text \<open>
  The loop of \<open>executeSelect\<close>: \<open>for !cursor.EndOfTable\<close>. The third argument is what
  has been written to \<open>out\<close> so far; \<open>Fprintln\<close> writes the row and a newline.
\<close>

definition select_measure :: "Table \<Rightarrow> Cursor option \<Rightarrow> nat" where
  "select_measure tbl c =
     (case c of
        None \<Rightarrow> 0
      | Some cur \<Rightarrow>
          (if EndOfTable cur then 1 else 2 + unat (NumRows tbl - rowNumber cur - 1)))"

lemma Value_NumRows: "Value c tbl = Ok (rowbyte, tbl') \<Longrightarrow> NumRows tbl' = NumRows tbl"
  by (auto simp: Value_def Let_def split: option.splits result.splits)

lemma unat_pred_less: "(x::'a::len word) \<noteq> 0 \<Longrightarrow> unat (x - 1) < unat x"
  by (simp add: unat_minus_one unat_gt_0)

lemma word_gap_nonzero: "\<not> (r + 1 \<ge> (N::uint32)) \<Longrightarrow> N - r - 1 \<noteq> 0"
proof
  assume a: "\<not> (r + 1 \<ge> N)" and "N - r - 1 = 0"
  then have "N = r + 1" by (simp add: algebra_simps)
  with a show False by simp
qed

lemma Advance_measure:
  assumes "\<not> EndOfTable cur" and "NumRows tbl' = NumRows tbl"
  shows "select_measure tbl' (Advance (Some cur) tbl') < select_measure tbl (Some cur)"
proof (cases "rowNumber cur + 1 \<ge> NumRows tbl")
  case True
  with assms show ?thesis by (simp add: select_measure_def Advance_def Let_def)
next
  case False
  then have nz: "NumRows tbl - rowNumber cur - 1 \<noteq> 0"
    by (rule word_gap_nonzero)
  have lt: "unat (NumRows tbl - rowNumber cur - 1 - 1) < unat (NumRows tbl - rowNumber cur - 1)"
    using nz by (rule unat_pred_less)
  have eq: "NumRows tbl - (rowNumber cur + 1) - 1 = NumRows tbl - rowNumber cur - 1 - 1"
    by simp
  have adv: "Advance (Some cur) tbl' = Some (cur\<lparr>rowNumber := rowNumber cur + 1\<rparr>)"
    using False assms by (simp add: Advance_def Let_def)
  have "select_measure tbl' (Some (cur\<lparr>rowNumber := rowNumber cur + 1\<rparr>))
          = 2 + unat (NumRows tbl - (rowNumber cur + 1) - 1)"
    using assms by (simp add: select_measure_def)
  moreover have "select_measure tbl (Some cur) = 2 + unat (NumRows tbl - rowNumber cur - 1)"
    using assms by (simp add: select_measure_def)
  ultimately show ?thesis
    unfolding adv eq using lt by linarith
qed

function select_loop ::
    "Table \<Rightarrow> Cursor option \<Rightarrow> byte list \<Rightarrow> (ExecuteResult \<times> byte list \<times> Table) result" where
  "select_loop tbl c out =
     (case c of
        None \<Rightarrow> Panic NilDereference
      | Some cursor \<Rightarrow>
          (if EndOfTable cursor then Ok (ExecuteSuccess, out, tbl)
           else
             (case Value c tbl of
                Err e \<Rightarrow>
                  Ok (ExecuteFailedFile,
                      out @ bytes_of ''failed to get row, '' @ error_text e, tbl)
              | Panic x \<Rightarrow> Panic x
              | Ok (rowbyte, tbl') \<Rightarrow>
                  select_loop tbl' (Advance c tbl')
                    (out @ Row_String (DeseralizeRow rowbyte) @ [10]))))"
  by pat_completeness auto
termination
proof (relation "measure (\<lambda>(tbl, c, out). select_measure tbl c)")
  show "wf (measure (\<lambda>(tbl, c, out). select_measure tbl c))"
    by simp
next
  fix tbl :: Table and c :: "Cursor option" and out :: "byte list"
    and cursor x2 rowbyte tbl'
  assume "c = Some cursor" and "\<not> EndOfTable cursor"
    and "Value c tbl = Ok x2" and "(rowbyte, tbl') = x2"
  then show "((tbl', Advance c tbl', out @ Row_String (DeseralizeRow rowbyte) @ [10]),
              (tbl, c, out)) \<in> measure (\<lambda>(tbl, c, out). select_measure tbl c)"
    using Advance_measure [of cursor tbl' tbl] Value_NumRows [of c tbl rowbyte tbl']
    by auto
qed

declare select_loop.simps [simp del]

definition executeSelect :: "Table \<Rightarrow> (ExecuteResult \<times> byte list \<times> Table) result" where
  "executeSelect tbl = select_loop tbl (Some (CursorAtStart tbl)) []"

section \<open>The versions that keep the table in memory (db/db.go and main.go)\<close>

text \<open>
  Before the pager, the table holds its pages itself:
  \<open>Pages [TableMaxPages][RowsPerPage][RowSize]byte\<close>. The two files share \<open>RowSlot\<close>,
  \<open>insertRow\<close> and \<open>executeSelect\<close>; \<open>executeInsert\<close> differs in the bound it tests.
  The names carry \<open>_mem\<close> for db/db.go and \<open>_main\<close> for main.go.
\<close>

record Table_mem =
  NumRows_mem :: uint32
  Pages_mem :: "nat \<Rightarrow> Page"

definition RowSlot_mem :: "Table_mem \<Rightarrow> uint32 \<Rightarrow> byte list result" where
  "RowSlot_mem tbl rowNum =
     (let pageNum = rowNum div of_nat RowsPerPage;
          rowOffset = rowNum mod of_nat RowsPerPage
      in if unat pageNum < TableMaxPages then Ok (Pages_mem tbl (unat pageNum) ! unat rowOffset)
         else Panic (IndexOutOfRange (uint pageNum) TableMaxPages))"

definition insertRow_mem :: "Table_mem \<Rightarrow> uint32 \<Rightarrow> Row \<Rightarrow> Table_mem result" where
  "insertRow_mem tbl rowNum row =
     (let pageNum = rowNum div of_nat RowsPerPage;
          rowOffset = rowNum mod of_nat RowsPerPage
      in if unat pageNum < TableMaxPages
         then Ok (tbl\<lparr>Pages_mem := (Pages_mem tbl)
                    (unat pageNum := (Pages_mem tbl (unat pageNum))[unat rowOffset := Seralize row])\<rparr>)
         else Panic (IndexOutOfRange (uint pageNum) TableMaxPages))"

text \<open>db/db.go: \<open>if tbl.NumRows >= TableMaxRows\<close>.\<close>

definition executeInsert_mem :: "Table_mem \<Rightarrow> Row \<Rightarrow> (ExecuteResult \<times> Table_mem) result" where
  "executeInsert_mem tbl row =
     (if NumRows_mem tbl \<ge> of_nat TableMaxRows then Ok (ExecuteTableFull, tbl)
      else
        (case insertRow_mem tbl (NumRows_mem tbl) row of
           Panic x \<Rightarrow> Panic x
         | Err e \<Rightarrow> Err e
         | Ok tbl' \<Rightarrow> Ok (ExecuteSuccess, tbl'\<lparr>NumRows_mem := NumRows_mem tbl' + 1\<rparr>)))"

text \<open>main.go: \<open>if tbl.NumRows >= TableMaxPages\<close>.\<close>

definition executeInsert_main :: "Table_mem \<Rightarrow> Row \<Rightarrow> (ExecuteResult \<times> Table_mem) result" where
  "executeInsert_main tbl row =
     (if NumRows_mem tbl \<ge> of_nat TableMaxPages then Ok (ExecuteTableFull, tbl)
      else
        (case insertRow_mem tbl (NumRows_mem tbl) row of
           Panic x \<Rightarrow> Panic x
         | Err e \<Rightarrow> Err e
         | Ok tbl' \<Rightarrow> Ok (ExecuteSuccess, tbl'\<lparr>NumRows_mem := NumRows_mem tbl' + 1\<rparr>)))"

text \<open>\<open>Row.String\<close> of db/db.go prints the key as it is stored.\<close>

definition Row_String_mem :: "Row \<Rightarrow> byte list" where
  "Row_String_mem r =
     (let userLen = IndexByte (Username r) 0;
          userLen = (if userLen = - 1 then int ColumnUsernameSize else userLen);
          emailLen = IndexByte (Email r) 0;
          emailLen = (if emailLen = - 1 then int ColumnEmailSize else emailLen)
      in bytes_of ''('' @ decimal (unat (ID r)) @ bytes_of '', ''
           @ take (nat userLen) (Username r) @ bytes_of '', ''
           @ take (nat emailLen) (Email r) @ bytes_of '')'')"

text \<open>\<open>executeSelect\<close> of db/db.go: \<open>for i := uint32(0); i < tbl.NumRows; i++\<close>.\<close>

function select_loop_mem ::
    "Table_mem \<Rightarrow> uint32 \<Rightarrow> byte list \<Rightarrow> (ExecuteResult \<times> byte list) result" where
  "select_loop_mem tbl i out =
     (if i < NumRows_mem tbl then
        (case RowSlot_mem tbl i of
           Ok rowbyte \<Rightarrow>
             select_loop_mem tbl (i + 1) (out @ Row_String_mem (DeseralizeRow rowbyte) @ [10])
         | Err e \<Rightarrow> Err e
         | Panic x \<Rightarrow> Panic x)
      else Ok (ExecuteSuccess, out))"
  by pat_completeness auto
termination
proof (relation "measure (\<lambda>(tbl, i, out). unat (NumRows_mem tbl - i))")
  show "wf (measure (\<lambda>(tbl, i, out). unat (NumRows_mem tbl - i)))"
    by simp
next
  fix tbl :: Table_mem and i :: uint32 and out rowbyte :: "byte list"
  assume "i < NumRows_mem tbl"
  then have "NumRows_mem tbl - i \<noteq> 0"
    by auto
  then have "unat (NumRows_mem tbl - i - 1) < unat (NumRows_mem tbl - i)"
    by (rule unat_pred_less)
  moreover have "NumRows_mem tbl - (i + 1) = NumRows_mem tbl - i - 1"
    by simp
  ultimately have "unat (NumRows_mem tbl - (i + 1)) < unat (NumRows_mem tbl - i)"
    by (simp only:)
  then show "((tbl, i + 1, out @ Row_String_mem (DeseralizeRow rowbyte) @ [10]),
              (tbl, i, out)) \<in> measure (\<lambda>(tbl, i, out). unat (NumRows_mem tbl - i))"
    by (simp only: in_measure prod.case)
qed

declare select_loop_mem.simps [simp del]

definition executeSelect_mem :: "Table_mem \<Rightarrow> (ExecuteResult \<times> byte list) result" where
  "executeSelect_mem tbl = select_loop_mem tbl 0 []"

section \<open>The pages as the specification words them\<close>

text \<open>
  The byte of the file at an offset, zero past the end of the file; the page that the
  file holds at a page number, row-slot by row-slot; and the number of pages of the file,
  \<open>ceil(Length / PageSize)\<close> for a length that is not negative.
\<close>

definition file_byte :: "File \<Rightarrow> nat \<Rightarrow> byte" where
  "file_byte f k = (if k < length (content f) then content f ! k else 0)"

definition disk_page :: "File \<Rightarrow> nat \<Rightarrow> Page" where
  "disk_page f pageNum =
     map (\<lambda>row. map (\<lambda>j. file_byte f (pageNum * PageSize + row * RowSize + j)) [0..<RowSize])
       [0..<RowsPerPage]"

definition pages_on_disk :: "Pager \<Rightarrow> int" where
  "pages_on_disk p = (Length p + int PageSize - 1) div int PageSize"

text \<open>The bytes of a row-slot in a page buffer.\<close>

definition row_bytes :: "byte list \<Rightarrow> nat \<Rightarrow> byte list" where
  "row_bytes pageByte row = take RowSize (drop (row * RowSize) pageByte)"

section \<open>Inputs at which claims are evaluated\<close>

text \<open>
  A one-page file whose reads fail with an I/O error, and the empty table over it
  (no row counted, no page loaded).
\<close>

definition faulty_file :: File where
  "faulty_file =
     \<lparr>fname = bytes_of ''test.db'', content = replicate 4096 0,
      read_fault = (\<lambda>off. Some (bytes_of ''input/output error'')),
      write_fault = (\<lambda>off. None)\<rparr>"

definition faulty_table :: Table where
  "faulty_table = \<lparr>NumRows = 0, Pager = NewPager faulty_file\<rparr>"

text \<open>A file of five bytes, less than one row-slot.\<close>

definition small_file :: File where
  "small_file =
     \<lparr>fname = bytes_of ''test.db'', content = [2, 0, 0, 0, 65],
      read_fault = (\<lambda>off. None), write_fault = (\<lambda>off. None)\<rparr>"

text \<open>
  A file of two pages: the first page is full of bytes 1, so each of its row-slots has a
  nonzero key; in the second page only the first byte is nonzero, so its first row-slot
  has key 1 and the others key 0.
\<close>

definition two_page_file :: File where
  "two_page_file =
     \<lparr>fname = bytes_of ''test.db'', content = replicate 4096 1 @ (1 # replicate 4095 0),
      read_fault = (\<lambda>off. None), write_fault = (\<lambda>off. None)\<rparr>"

text \<open>
  The recovered row count in the words of the specification:
  \<open>(numberOfPages - 1) * RowsPerPage + countOfNonSentinelRowsInLastPage\<close>.
\<close>

definition recovered_rows_spec :: "nat \<Rightarrow> nat \<Rightarrow> int" where
  "recovered_rows_spec numberOfPages countInLastPage =
     (int numberOfPages - 1) * int RowsPerPage + int countInLastPage"

section \<open>Facts about the constants and the row codec\<close>

lemma RowSize_eq: "RowSize = 292" by (simp add: RowSize_def ColumnUsernameSize_def ColumnEmailSize_def)
lemma RowsPerPage_eq: "RowsPerPage = 14" by (simp add: RowsPerPage_def RowSize_eq PageSize_def)
lemma TableMaxRows_eq: "TableMaxRows = 1400" by (simp add: TableMaxRows_def RowsPerPage_eq TableMaxPages_def)

lemma TableMaxPages_eq: "TableMaxPages = 100"
  by (simp add: TableMaxPages_def)

lemma PageSize_eq: "PageSize = 4096"
  by (simp add: PageSize_def)

lemma un_le32_le32: "un_le32 (le32 w @ bs) = w"
proof (rule bit_word_eqI)
  fix n assume n: "n < LENGTH(32)"
  have a: "n - 8 + 8 = n" if "8 \<le> n" using that by simp
  have b: "n - 16 + 16 = n" if "16 \<le> n" using that by simp
  have c: "n - 24 + 24 = n" if "24 \<le> n" using that by simp
  consider "n < 8" | "8 \<le> n" "n < 16" | "16 \<le> n" "n < 24" | "24 \<le> n" by linarith
  then show "bit (un_le32 (le32 w @ bs)) n = bit w n"
  proof cases
    case 1 then show ?thesis using n by (auto simp add: le32_def bit_simps)
  next
    case 2 then show ?thesis using n a by (auto simp add: le32_def bit_simps add.commute)
  next
    case 3 then show ?thesis using n b by (auto simp add: le32_def bit_simps add.commute)
  next
    case 4 then show ?thesis using n c by (auto simp add: le32_def bit_simps add.commute)
  qed
qed

lemma length_le32: "length (le32 w) = 4" by (simp add: le32_def)

lemma DeseralizeRow_Seralize:
  "length (Username r) = ColumnUsernameSize \<Longrightarrow> length (Email r) = ColumnEmailSize \<Longrightarrow>
   DeseralizeRow (Seralize r) = r"
  unfolding DeseralizeRow_def Seralize_def
  by (simp add: un_le32_le32 length_le32)

lemma length_Seralize:
  "length (Username r) = ColumnUsernameSize \<Longrightarrow> length (Email r) = ColumnEmailSize \<Longrightarrow>
   length (Seralize r) = RowSize"
  by (simp add: Seralize_def length_le32 RowSize_eq) (simp add: ColumnUsernameSize_def ColumnEmailSize_def)

lemma IndexByte_absent: "c \<notin> set bs \<Longrightarrow> IndexByte bs c = - 1"
  by (induction bs) auto

lemma IndexByte_nonneg: "c \<in> set bs \<Longrightarrow> 0 \<le> IndexByte bs c"
  by (induction bs) (auto simp: Let_def)

lemma IndexByte_present:
  "c \<in> set bs \<Longrightarrow> IndexByte bs c = int (length (takeWhile (\<lambda>b. b \<noteq> c) bs))"
proof (induction bs)
  case Nil then show ?case by simp
next
  case (Cons b bs)
  show ?case
  proof (cases "b = c")
    case True then show ?thesis by simp
  next
    case False
    with Cons.prems have "c \<in> set bs" by simp
    with Cons.IH IndexByte_nonneg [OF this] False show ?thesis by (simp add: Let_def)
  qed
qed

lemma IndexByte_minus_one: "IndexByte bs c = - 1 \<longleftrightarrow> c \<notin> set bs"
  using IndexByte_absent [of c bs] IndexByte_nonneg [of c bs] by auto

lemma IndexByte_none:
  "IndexByte bs c = - 1 \<Longrightarrow> takeWhile (\<lambda>b. b \<noteq> c) bs = bs"
  by (auto simp: IndexByte_minus_one takeWhile_eq_all_conv)

lemma IndexByte_some:
  "IndexByte bs c \<noteq> - 1 \<Longrightarrow> take (nat (IndexByte bs c)) bs = takeWhile (\<lambda>b. b \<noteq> c) bs"
proof -
  assume "IndexByte bs c \<noteq> - 1"
  then have "c \<in> set bs" by (simp add: IndexByte_minus_one)
  moreover have "takeWhile (\<lambda>b. b \<noteq> c) bs = take (length (takeWhile (\<lambda>b. b \<noteq> c) bs)) bs"
    by (rule takeWhile_eq_take)
  ultimately show ?thesis
    using IndexByte_present [of c bs] by simp
qed

lemma Row_String_takeWhile:
  assumes "length (Username r) = ColumnUsernameSize" "length (Email r) = ColumnEmailSize"
  shows "Row_String r =
     bytes_of ''('' @ decimal (unat (ID r - 1)) @ bytes_of '', ''
       @ takeWhile (\<lambda>b. b \<noteq> 0) (Username r) @ bytes_of '', ''
       @ takeWhile (\<lambda>b. b \<noteq> 0) (Email r) @ bytes_of '')''"
  using assms by (auto simp: Row_String_def Let_def IndexByte_none IndexByte_some)

lemma takeWhile_padded:
  "takeWhile (\<lambda>b. b \<noteq> (0::byte)) (bs @ replicate n 0) = takeWhile (\<lambda>b. b \<noteq> 0) bs"
  by (induction bs) (auto simp: takeWhile_replicate)

lemma copy_bytes_zero:
  "length src \<le> n \<Longrightarrow> copy_bytes (replicate n 0) src = src @ replicate (n - length src) 0"
  by (simp add: copy_bytes_def min_def)

lemma new_Row_wf:
  assumes "length username \<le> ColumnUsernameSize" "length email \<le> ColumnEmailSize"
  shows "length (Username (new_Row k username email)) = ColumnUsernameSize"
    and "length (Email (new_Row k username email)) = ColumnEmailSize"
  using assms by (simp_all add: new_Row_def copy_bytes_zero)

lemma decimal_small: "n < 10 \<Longrightarrow> decimal n = [of_nat (48 + n)]"
  by (subst decimal.simps) simp

lemma decimal_large: "\<not> n < 10 \<Longrightarrow> decimal n = decimal (n div 10) @ [of_nat (48 + n mod 10)]"
  by (subst decimal.simps) simp

lemma Row_String_new_Row:
  assumes "length username \<le> ColumnUsernameSize" and "length email \<le> ColumnEmailSize"
  shows "Row_String (new_Row k username email) =
           bytes_of ''('' @ decimal (unat (k - 1)) @ bytes_of '', ''
             @ takeWhile (\<lambda>b. b \<noteq> 0) username @ bytes_of '', ''
             @ takeWhile (\<lambda>b. b \<noteq> 0) email @ bytes_of '')''"
proof -
  let ?r = "new_Row k username email"
  have "Row_String ?r =
     bytes_of ''('' @ decimal (unat (ID ?r - 1)) @ bytes_of '', ''
       @ takeWhile (\<lambda>b. b \<noteq> 0) (Username ?r) @ bytes_of '', ''
       @ takeWhile (\<lambda>b. b \<noteq> 0) (Email ?r) @ bytes_of '')''"
    using new_Row_wf [OF assms] by (rule Row_String_takeWhile)
  then show ?thesis
    using assms by (simp add: new_Row_def copy_bytes_zero takeWhile_padded)
qed

section \<open>Facts about row-count recovery\<close>

lemma count_rows_step:
  "i < RowsPerPage \<Longrightarrow>
   count_rows i pageByte numRows =
     (if ID (DeseralizeRow (copy_bytes (replicate RowSize 0)
               (drop (i * RowSize) (take (i * RowSize + RowSize) pageByte)))) = 0
      then numRows else count_rows (i + 1) pageByte (numRows + 1))"
  by (subst count_rows.simps) (simp add: Let_def)

lemma un_le32_zeros: "un_le32 (replicate n 0) = 0"
proof (cases "4 \<le> n")
  case True
  then have e: "n = Suc (Suc (Suc (Suc (n - 4))))" by arith
  show ?thesis by (subst e) simp
next
  case False
  then consider "n = 0" | "n = 1" | "n = 2" | "n = 3" by linarith
  then show ?thesis by cases (simp_all add: numeral_2_eq_2 numeral_3_eq_3)
qed

lemma un_le32_Cons_zeros: "3 \<le> n \<Longrightarrow> un_le32 (b # replicate n 0) = ucast b"
proof -
  assume "3 \<le> n"
  then have e: "n = Suc (Suc (Suc (n - 3)))" by arith
  show ?thesis by (subst e) simp
qed

section \<open>Facts about the pager\<close>

lemma load_rows_step:
  "row < RowsPerPage \<Longrightarrow> row * RowSize < bytesRead \<Longrightarrow>
   load_rows row bytesRead pageByte page =
     load_rows (row + 1) bytesRead pageByte
       (page[row := copy_bytes (page ! row) (drop (row * RowSize) pageByte)])"
  by (subst load_rows.simps) (simp add: Let_def)

lemma load_rows_break:
  "row < RowsPerPage \<Longrightarrow> bytesRead \<le> row * RowSize \<Longrightarrow>
   load_rows row bytesRead pageByte page = page"
  by (subst load_rows.simps) (simp add: Let_def)

lemma load_rows_done:
  "\<not> row < RowsPerPage \<Longrightarrow> load_rows row bytesRead pageByte page = page"
  by (subst load_rows.simps) simp

lemma row_bytes_zero:
  assumes "length pageByte = PageSize" and "row < RowsPerPage"
    and "\<forall>k. bytesRead \<le> k \<and> k < PageSize \<longrightarrow> pageByte ! k = 0"
    and "bytesRead \<le> row * RowSize"
  shows "row_bytes pageByte row = replicate RowSize 0"
proof (rule nth_equalityI)
  have le: "row * RowSize + RowSize \<le> PageSize"
    using assms(2) by (simp add: RowsPerPage_eq RowSize_eq PageSize_eq)
  then show "length (row_bytes pageByte row) = length (replicate RowSize (0::byte))"
    using assms(1) by (simp add: row_bytes_def)
  fix i assume "i < length (row_bytes pageByte row)"
  then have i: "i < RowSize" by (simp add: row_bytes_def)
  with le assms(1) have "row_bytes pageByte row ! i = pageByte ! (row * RowSize + i)"
    by (simp add: row_bytes_def)
  also have "\<dots> = 0" using assms(3,4) i le by simp
  finally show "row_bytes pageByte row ! i = replicate RowSize 0 ! i" using i by simp
qed

lemma load_rows_inv:
  assumes "length pageByte = PageSize"
    and "\<forall>k. bytesRead \<le> k \<and> k < PageSize \<longrightarrow> pageByte ! k = 0"
    and "length page = RowsPerPage"
    and "\<forall>i<row. page ! i = row_bytes pageByte i"
    and "\<forall>i. row \<le> i \<and> i < RowsPerPage \<longrightarrow> page ! i = replicate RowSize 0"
    and "row \<le> RowsPerPage"
  shows "load_rows row bytesRead pageByte page = map (row_bytes pageByte) [0..<RowsPerPage]"
  using assms(3-6)
proof (induction "RowsPerPage - row" arbitrary: row page)
  case 0
  then have "row = RowsPerPage" by simp
  with 0 show ?case
    by (auto simp: load_rows_done intro!: nth_equalityI)
next
  case (Suc n)
  then have lt: "row < RowsPerPage" by simp
  show ?case
  proof (cases "bytesRead \<le> row * RowSize")
    case True
    have "page ! i = row_bytes pageByte i" if "i < RowsPerPage" for i
    proof (cases "i < row")
      case True with Suc.prems show ?thesis by simp
    next
      case False
      have "bytesRead \<le> i * RowSize"
      proof -
        from False have "row * RowSize \<le> i * RowSize" by simp
        with True show ?thesis by linarith
      qed
      with row_bytes_zero [OF assms(1) that assms(2)] have "row_bytes pageByte i = replicate RowSize 0"
        by simp
      with False that Suc.prems show ?thesis by simp
    qed
    with Suc.prems lt True show ?thesis
      by (auto simp: load_rows_break intro!: nth_equalityI)
  next
    case False
    let ?page = "page[row := copy_bytes (page ! row) (drop (row * RowSize) pageByte)]"
    have le: "row * RowSize + RowSize \<le> PageSize"
      using lt by (simp add: RowsPerPage_eq RowSize_eq PageSize_eq)
    have "page ! row = replicate RowSize 0" using Suc.prems lt by simp
    then have new: "copy_bytes (page ! row) (drop (row * RowSize) pageByte) = row_bytes pageByte row"
      using le assms(1) by (simp add: copy_bytes_def row_bytes_def min_def)
    have "load_rows (row + 1) bytesRead pageByte ?page = map (row_bytes pageByte) [0..<RowsPerPage]"
    proof (rule Suc.hyps(1))
      show "n = RowsPerPage - (row + 1)" using Suc.hyps(2) by simp
      show "length ?page = RowsPerPage" using Suc.prems by simp
      show "\<forall>i<row + 1. ?page ! i = row_bytes pageByte i"
        using Suc.prems lt new by (auto simp: nth_list_update less_Suc_eq)
      show "\<forall>i. row + 1 \<le> i \<and> i < RowsPerPage \<longrightarrow> ?page ! i = replicate RowSize 0"
        using Suc.prems by (auto simp: nth_list_update)
      show "row + 1 \<le> RowsPerPage" using lt by simp
    qed
    with False lt show ?thesis by (simp add: load_rows_step)
  qed
qed

lemma load_rows_new_Page:
  assumes "length pageByte = PageSize"
    and "\<forall>k. bytesRead \<le> k \<and> k < PageSize \<longrightarrow> pageByte ! k = 0"
  shows "load_rows 0 bytesRead pageByte new_Page = map (row_bytes pageByte) [0..<RowsPerPage]"
  using assms by (rule load_rows_inv) (simp_all add: new_Page_def)

lemma go_div_nonneg: "0 \<le> a \<Longrightarrow> 0 < b \<Longrightarrow> go_div a b = a div b"
  by (cases "a = 0") (simp_all add: go_div_def)

lemma go_mod_nonneg: "0 \<le> a \<Longrightarrow> 0 < b \<Longrightarrow> go_mod a b = a mod b"
  by (simp add: go_mod_def go_div_nonneg minus_mult_div_eq_mod)

lemma ceil_div_4096:
  fixes L :: int
  shows "(if L mod 4096 \<noteq> 0 then L div 4096 + 1 else L div 4096) = (L + 4096 - 1) div 4096"
proof -
  have L: "L = 4096 * (L div 4096) + L mod 4096" by simp
  have r: "0 \<le> L mod 4096" "L mod 4096 < 4096" by simp_all
  show ?thesis
  proof (cases "L mod 4096 = 0")
    case True
    have "(L + 4096 - 1) div 4096 = L div 4096"
    proof (rule int_div_pos_eq)
      show "L + 4096 - 1 = 4096 * (L div 4096) + 4095" using L True by linarith
    qed simp_all
    with True show ?thesis by simp
  next
    case False
    have "(L + 4096 - 1) div 4096 = L div 4096 + 1"
    proof (rule int_div_pos_eq)
      have "4096 * (L div 4096 + 1) = 4096 * (L div 4096) + 4096" by simp
      then show "L + 4096 - 1 = 4096 * (L div 4096 + 1) + (L mod 4096 - 1)" using L by linarith
      show "0 \<le> L mod 4096 - 1" using False r by linarith
      show "L mod 4096 - 1 < 4096" using r by linarith
    qed
    with False show ?thesis by simp
  qed
qed

lemma numberOfPages_ceil:
  assumes "0 \<le> Length p"
  shows "(if go_mod (Length p) (int PageSize) \<noteq> 0 then go_div (Length p) (int PageSize) + 1
          else go_div (Length p) (int PageSize)) = pages_on_disk p"
proof -
  have pos: "(0::int) < int PageSize" by (simp add: PageSize_eq)
  have size: "int PageSize = 4096" by (simp add: PageSize_eq)
  have d: "go_div (Length p) (int PageSize) = Length p div 4096"
    and m: "go_mod (Length p) (int PageSize) = Length p mod 4096"
    using go_div_nonneg [OF assms pos] go_mod_nonneg [OF assms pos] by (simp_all only: size)
  have c: "pages_on_disk p = (Length p + 4096 - 1) div 4096"
    by (simp only: pages_on_disk_def size)
  show ?thesis
    unfolding d m c by (rule ceil_div_4096)
qed

lemma read_buffer:
  fixes f :: File and off :: nat
  defines "bs \<equiv> take PageSize (drop off (content f))"
  defines "pageByte \<equiv> bs @ replicate (PageSize - length bs) 0"
  shows "length pageByte = PageSize"
    and "\<forall>k. length bs \<le> k \<and> k < PageSize \<longrightarrow> pageByte ! k = 0"
    and "\<forall>k<PageSize. pageByte ! k = file_byte f (off + k)"
proof -
  show len: "length pageByte = PageSize" by (simp add: pageByte_def bs_def)
  show "\<forall>k. length bs \<le> k \<and> k < PageSize \<longrightarrow> pageByte ! k = 0"
    by (auto simp: pageByte_def nth_append)
  show "\<forall>k<PageSize. pageByte ! k = file_byte f (off + k)"
  proof (intro allI impI)
    fix k assume k: "k < PageSize"
    show "pageByte ! k = file_byte f (off + k)"
    proof (cases "k < length bs")
      case True
      then have lt: "off + k < length (content f)" by (simp add: bs_def) arith
      have "pageByte ! k = bs ! k" using True by (simp add: pageByte_def nth_append)
      also have "\<dots> = content f ! (off + k)" using True lt by (simp add: bs_def)
      finally show ?thesis using lt by (simp add: file_byte_def)
    next
      case False
      then have "\<not> off + k < length (content f)" using k by (auto simp: bs_def)
      with False k show ?thesis by (simp add: pageByte_def nth_append file_byte_def)
    qed
  qed
qed

lemma row_bytes_file:
  assumes "length pageByte = PageSize" and "\<forall>k<PageSize. pageByte ! k = file_byte f (off + k)"
    and "row < RowsPerPage"
  shows "row_bytes pageByte row = map (\<lambda>j. file_byte f (off + row * RowSize + j)) [0..<RowSize]"
proof (rule nth_equalityI)
  have le: "row * RowSize + RowSize \<le> PageSize"
    using assms(3) by (simp add: RowsPerPage_eq RowSize_eq PageSize_eq)
  then show "length (row_bytes pageByte row)
      = length (map (\<lambda>j. file_byte f (off + row * RowSize + j)) [0..<RowSize])"
    using assms(1) by (simp add: row_bytes_def)
  fix i assume "i < length (row_bytes pageByte row)"
  then have i: "i < RowSize" by (simp add: row_bytes_def)
  with le assms(1) have "row_bytes pageByte row ! i = pageByte ! (row * RowSize + i)"
    by (simp add: row_bytes_def)
  also have "\<dots> = file_byte f (off + (row * RowSize + i))" using assms(2) i le by simp
  finally show "row_bytes pageByte row ! i
      = map (\<lambda>j. file_byte f (off + row * RowSize + j)) [0..<RowSize] ! i"
    using i by (simp add: add.assoc)
qed

lemma load_from_disk:
  fixes f :: File and n :: nat
  defines "bs \<equiv> take PageSize (drop (n * PageSize) (content f))"
  shows "load_rows 0 (length bs) (bs @ replicate (PageSize - length bs) 0) new_Page = disk_page f n"
proof -
  let ?pb = "bs @ replicate (PageSize - length bs) 0"
  note rb = read_buffer [where f = f and off = "n * PageSize", folded bs_def]
  have "load_rows 0 (length bs) ?pb new_Page = map (row_bytes ?pb) [0..<RowsPerPage]"
    using rb(1,2) by (rule load_rows_new_Page)
  also have "\<dots> = disk_page f n"
    unfolding disk_page_def
    using row_bytes_file [OF rb(1) rb(3)] by (intro map_cong) auto
  finally show ?thesis .
qed

lemma Get_eq:
  assumes "0 \<le> pageNum" and "pageNum < int TableMaxPages" and "0 \<le> Length p"
  shows "Get p pageNum =
     (case pages p (nat pageNum) of
        Some page \<Rightarrow> Ok (page, p)
      | None \<Rightarrow>
          if pageNum < pages_on_disk p then
            (case read_fault (backing p) (pageNum * int PageSize) of
               Some cause \<Rightarrow> Err (PathError (bytes_of ''read'') (fname (backing p)) cause)
             | None \<Rightarrow>
                 Ok (disk_page (backing p) (nat pageNum),
                     p\<lparr>pages := (pages p)(nat pageNum := Some (disk_page (backing p) (nat pageNum)))\<rparr>))
          else Ok (new_Page, p\<lparr>pages := (pages p)(nat pageNum := Some new_Page)\<rparr>))"
proof -
  define bs where "bs = take PageSize (drop (nat pageNum * PageSize) (content (backing p)))"
  have off: "nat (pageNum * int PageSize) = nat pageNum * PageSize"
    using assms(1) by (simp add: nat_mult_distrib)
  have rd: "ReadAt (backing p) PageSize (pageNum * int PageSize) =
      (case read_fault (backing p) (pageNum * int PageSize) of
         Some cause \<Rightarrow> Inl (PathError (bytes_of ''read'') (fname (backing p)) cause)
       | None \<Rightarrow> Inr bs)"
  proof -
    have "\<not> pageNum * int PageSize < 0" using assms(1) by (simp add: PageSize_eq)
    then show ?thesis by (simp add: ReadAt_def off bs_def split: option.split)
  qed
  have ld: "load_rows 0 (length bs) (bs @ replicate (PageSize - length bs) 0) new_Page
              = disk_page (backing p) (nat pageNum)"
    unfolding bs_def by (rule load_from_disk)
  have guard: "\<not> pageNum > int TableMaxPages" "\<not> (pageNum < 0 \<or> int TableMaxPages \<le> pageNum)"
    using assms(1,2) by simp_all
  show ?thesis
  proof (cases "pages p (nat pageNum)")
    case (Some page)
    then show ?thesis using guard by (simp add: Get_def)
  next
    case None
    show ?thesis
    proof (cases "pageNum < pages_on_disk p")
      case False
      with None guard show ?thesis
        by (simp add: Get_def Let_def numberOfPages_ceil [OF assms(3)])
    next
      case True
      show ?thesis
      proof (cases "read_fault (backing p) (pageNum * int PageSize)")
        case (Some cause)
        with None True guard show ?thesis
          by (simp add: Get_def Let_def numberOfPages_ceil [OF assms(3)] rd)
      next
        case none: None
        with None True guard show ?thesis
          by (simp only: Get_def Let_def numberOfPages_ceil [OF assms(3)] rd ld
                if_True if_False option.case sum.case)
      qed
    qed
  qed
qed

lemma disk_page_nth:
  "row < RowsPerPage \<Longrightarrow> j < RowSize \<Longrightarrow>
   disk_page f n ! row ! j = file_byte f (n * PageSize + row * RowSize + j)"
  by (simp add: disk_page_def)

lemma new_Page_nth: "row < RowsPerPage \<Longrightarrow> j < RowSize \<Longrightarrow> new_Page ! row ! j = 0"
  by (simp add: new_Page_def)

lemma Get_cached:
  assumes "0 \<le> pageNum" and "pageNum < int TableMaxPages" and "0 \<le> Length p"
    and "Get p pageNum = Ok (page, p')"
  shows "pages p' (nat pageNum) = Some page \<and> Length p' = Length p \<and> backing p' = backing p"
  using assms(4) unfolding Get_eq [OF assms(1-3)]
  by (auto split: option.splits if_splits)

section \<open>Claims\<close>

text \<open>
  C7. Serialization round-trip: for every key, every username of at most 32 bytes and
  every email of at most 255 bytes, deserializing the serialized row gives the row back,
  so it renders as the original row does; the rendering shows the key minus one and the
  username and the email up to their first zero byte, or whole when they hold none.
\<close>

theorem Seralize_roundtrip:
  assumes "length username \<le> ColumnUsernameSize" and "length email \<le> ColumnEmailSize"
  shows "DeseralizeRow (Seralize (new_Row k username email)) = new_Row k username email
       \<and> Row_String (DeseralizeRow (Seralize (new_Row k username email)))
           = Row_String (new_Row k username email)
       \<and> Row_String (new_Row k username email) =
           bytes_of ''('' @ decimal (unat (k - 1)) @ bytes_of '', ''
             @ takeWhile (\<lambda>b. b \<noteq> 0) username @ bytes_of '', ''
             @ takeWhile (\<lambda>b. b \<noteq> 0) email @ bytes_of '')''"
proof -
  have "DeseralizeRow (Seralize (new_Row k username email)) = new_Row k username email"
    using new_Row_wf [OF assms] by (rule DeseralizeRow_Seralize)
  with Row_String_new_Row [OF assms] show ?thesis by simp
qed

theorem Seralize_roundtrip_witness:
  "DeseralizeRow (Seralize (new_Row 2 (bytes_of ''user1'') (bytes_of ''person1@example.com'')))
     = new_Row 2 (bytes_of ''user1'') (bytes_of ''person1@example.com'')
   \<and> Row_String (DeseralizeRow (Seralize
        (new_Row 2 (bytes_of ''user1'') (bytes_of ''person1@example.com''))))
     = bytes_of ''(1, user1, person1@example.com)''"
  using Seralize_roundtrip [of "bytes_of ''user1''" "bytes_of ''person1@example.com''" 2]
  by (simp add: bytes_of_def ColumnUsernameSize_def ColumnEmailSize_def decimal_small)

text \<open>
  C1. Row-count recovery at open. On the two-page file whose last page holds one row,
  \<open>numberOfRowsOnDisk\<close> returns 1: it divides the number of whole pages before the last
  by \<open>RowsPerPage\<close> where the stated count multiplies, which gives 15.
\<close>

theorem numberOfRowsOnDisk_divides:
  "numberOfRowsOnDisk (NewPager two_page_file) = Ok 1
   \<and> DBOpen two_page_file = Ok \<lparr>NumRows = 1, Pager = NewPager two_page_file\<rparr>
   \<and> recovered_rows_spec 2 1 = 15"
proof -
  let ?pb = "1 # replicate 4095 (0::byte)"
  have id0: "ID (DeseralizeRow (copy_bytes (replicate RowSize 0)
               (drop (0 * RowSize) (take (0 * RowSize + RowSize) ?pb)))) = 1"
    by (simp add: RowSize_eq copy_bytes_def DeseralizeRow_def un_le32_Cons_zeros)
  have id1: "ID (DeseralizeRow (copy_bytes (replicate RowSize 0)
               (drop (1 * RowSize) (take (1 * RowSize + RowSize) ?pb)))) = 0"
    by (simp add: RowSize_eq copy_bytes_def DeseralizeRow_def un_le32_zeros)
  have c1: "count_rows (0 + 1) ?pb (0 + 1) = 1"
    using count_rows_step [of 1 ?pb 1] unfolding id1 by (simp add: RowsPerPage_eq)
  have cnt: "count_rows 0 ?pb 0 = 1"
    using count_rows_step [of 0 ?pb 0] unfolding id0 c1 by (simp add: RowsPerPage_eq)
  have len: "Length (NewPager two_page_file) = 8192"
    by (simp add: NewPager_def two_page_file_def)
  have pages: "go_div 8192 (int PageSize) = 2" and last: "go_div (2 - 1) (int RowsPerPage) = 0"
    by (simp_all add: go_div_def PageSize_eq RowsPerPage_eq)
  have rd: "ReadAt (backing (NewPager two_page_file)) PageSize ((2 - 1) * int PageSize)
              = Inr ?pb"
    by (simp add: ReadAt_def NewPager_def PageSize_eq two_page_file_def)
  have pad: "?pb @ replicate (PageSize - length ?pb) 0 = ?pb"
    by (simp add: PageSize_eq)
  have n: "numberOfRowsOnDisk (NewPager two_page_file) = Ok 1"
    by (simp only: numberOfRowsOnDisk_def len Let_def pages rd last sum.case pad cnt) simp
  then show ?thesis
    by (simp add: DBOpen_def Let_def recovered_rows_spec_def RowsPerPage_eq)
qed

text \<open>
  C2. Insert capacity boundary. The claim holds of \<open>executeInsert\<close> in db/db.go, which
  tests \<open>TableMaxRows\<close>; \<open>executeInsert\<close> in main.go tests \<open>TableMaxPages\<close> instead
  and reports a full table at 100 rows, far below \<open>TableMaxRows = 1400\<close>, where the
  version of db/db.go stores the row in slot 2 of page 7.
\<close>

theorem executeInsert_main_full_at_100:
  "executeInsert_main \<lparr>NumRows_mem = 100, Pages_mem = pgs\<rparr> row
     = Ok (ExecuteTableFull, \<lparr>NumRows_mem = 100, Pages_mem = pgs\<rparr>)
   \<and> (100 :: uint32) < of_nat TableMaxRows
   \<and> executeInsert_mem \<lparr>NumRows_mem = 100, Pages_mem = pgs\<rparr> row
     = Ok (ExecuteSuccess,
           \<lparr>NumRows_mem = 101, Pages_mem = pgs(7 := (pgs 7)[2 := Seralize row])\<rparr>)"
  by (simp add: executeInsert_main_def executeInsert_mem_def insertRow_mem_def Let_def
        TableMaxRows_eq RowsPerPage_eq TableMaxPages_eq)

text \<open>
  C3. Pager bounds defense. The guard of \<open>Get\<close> and of \<open>Flush\<close> is
  \<open>pageNum > TableMaxPages\<close>: page number \<open>TableMaxPages\<close> passes it, and so does a
  negative one, and the indexing of the array of \<open>TableMaxPages\<close> entries that follows
  panics.
\<close>

theorem Get_Flush_index_out_of_range:
  "Get p (int TableMaxPages) = Panic (IndexOutOfRange 100 100)
   \<and> Flush p (int TableMaxPages) = Panic (IndexOutOfRange 100 100)
   \<and> Get p (- 1) = Panic (IndexOutOfRange (- 1) 100)"
  by (simp add: Get_def Flush_def TableMaxPages_eq)

text \<open>
  C4. I/O errors on the insert path. On a table whose target page cannot be read,
  \<open>insertRow\<close> returns the error, and \<open>executeInsert\<close> reports success and counts the
  row all the same; no page holds it.
\<close>

theorem executeInsert_drops_error:
  "insertRow faulty_table (NumRows faulty_table) row
     = Err (PathError (bytes_of ''read'') (bytes_of ''test.db'') (bytes_of ''input/output error''))
   \<and> executeInsert faulty_table row = Ok (ExecuteSuccess, faulty_table\<lparr>NumRows := 1\<rparr>)
   \<and> pages (Pager faulty_table) 0 = None"
  by (simp add: executeInsert_def insertRow_def Get_def ReadAt_def faulty_table_def faulty_file_def
        NewPager_def Let_def go_div_def go_mod_def TableMaxRows_eq RowsPerPage_eq TableMaxPages_eq
        PageSize_eq)

text \<open>
  C5. Sentinel invariant of the stored key. The parser accepts the non-negative id
  \<open>2 ^ 32 - 1\<close>, and the key \<open>uint32(id + 1)\<close> it stores is zero.
\<close>

theorem prepareStatement_insert_zero_key:
  "0 \<le> sint (4294967295 :: int64)
   \<and> prepareStatement_insert 4294967295 (bytes_of ''a'') (bytes_of ''b'')
      = (Some \<lparr>Type = StatementInsert,
                InsertRow = Some (new_Row 0 (bytes_of ''a'') (bytes_of ''b''))\<rparr>,
         PrepareSuccess)
   \<and> ID (new_Row 0 (bytes_of ''a'') (bytes_of ''b'')) = 0"
  by (simp add: prepareStatement_insert_def bytes_of_def ColumnUsernameSize_def
        ColumnEmailSize_def new_Row_def)

text \<open>
  C6. Display round-trip of the id. The parser accepts the non-negative id \<open>2 ^ 32\<close>; the
  row it builds has key 1 and is displayed with id 0.
\<close>

theorem insert_display_wraps:
  "0 \<le> sint (4294967296 :: int64)
   \<and> prepareStatement_insert 4294967296 (bytes_of ''user1'') (bytes_of ''person1@example.com'')
      = (Some \<lparr>Type = StatementInsert,
                InsertRow = Some (new_Row 1 (bytes_of ''user1'') (bytes_of ''person1@example.com''))\<rparr>,
         PrepareSuccess)
   \<and> Row_String (new_Row 1 (bytes_of ''user1'') (bytes_of ''person1@example.com''))
      = bytes_of ''(0, user1, person1@example.com)''"
proof -
  have "Row_String (new_Row 1 (bytes_of ''user1'') (bytes_of ''person1@example.com''))
      = bytes_of ''(0, user1, person1@example.com)''"
    using Row_String_new_Row [of "bytes_of ''user1''" "bytes_of ''person1@example.com''" 1]
    by (simp add: bytes_of_def ColumnUsernameSize_def ColumnEmailSize_def decimal_small)
  moreover have key: "(ucast (4294967296 + 1 :: int64) :: uint32) = 1"
    by simp
  ultimately show ?thesis
    unfolding prepareStatement_insert_def key
    by (simp add: ColumnUsernameSize_def ColumnEmailSize_def bytes_of_def)
qed

text \<open>
  C8. Load semantics of \<open>Pager.Get\<close>. For a page number within the array and a file
  length that is not negative: a resident page is returned with the pager unchanged; a
  page that is not resident and lies below the number of pages of the file is read, and
  unless the read fails its row-slots hold the bytes of the file at offset
  \<open>pageNum * PageSize\<close>, zero where the file has ended; a page at or beyond that number
  is all zero; and the page returned is cached, so that a second \<open>Get\<close> returns it
  without another read.
\<close>

theorem Get_load_semantics:
  assumes "0 \<le> pageNum" and "pageNum < int TableMaxPages" and "0 \<le> Length p"
  shows "Get p pageNum =
     (case pages p (nat pageNum) of
        Some page \<Rightarrow> Ok (page, p)
      | None \<Rightarrow>
          if pageNum < pages_on_disk p then
            (case read_fault (backing p) (pageNum * int PageSize) of
               Some cause \<Rightarrow> Err (PathError (bytes_of ''read'') (fname (backing p)) cause)
             | None \<Rightarrow>
                 Ok (disk_page (backing p) (nat pageNum),
                     p\<lparr>pages := (pages p)(nat pageNum := Some (disk_page (backing p) (nat pageNum)))\<rparr>))
          else Ok (new_Page, p\<lparr>pages := (pages p)(nat pageNum := Some new_Page)\<rparr>))
   \<and> (\<forall>page p'. Get p pageNum = Ok (page, p') \<longrightarrow>
          pages p' (nat pageNum) = Some page \<and> Get p' pageNum = Ok (page, p'))
   \<and> (\<forall>row j. row < RowsPerPage \<and> j < RowSize \<longrightarrow>
          disk_page (backing p) (nat pageNum) ! row ! j
            = file_byte (backing p) (nat pageNum * PageSize + row * RowSize + j)
          \<and> new_Page ! row ! j = 0)"
proof (intro conjI allI impI)
  show "Get p pageNum =
     (case pages p (nat pageNum) of
        Some page \<Rightarrow> Ok (page, p)
      | None \<Rightarrow>
          if pageNum < pages_on_disk p then
            (case read_fault (backing p) (pageNum * int PageSize) of
               Some cause \<Rightarrow> Err (PathError (bytes_of ''read'') (fname (backing p)) cause)
             | None \<Rightarrow>
                 Ok (disk_page (backing p) (nat pageNum),
                     p\<lparr>pages := (pages p)(nat pageNum := Some (disk_page (backing p) (nat pageNum)))\<rparr>))
          else Ok (new_Page, p\<lparr>pages := (pages p)(nat pageNum := Some new_Page)\<rparr>))"
    using assms by (rule Get_eq)
next
  fix page p' assume g: "Get p pageNum = Ok (page, p')"
  from Get_cached [OF assms g] show "pages p' (nat pageNum) = Some page" by simp
  from Get_cached [OF assms g] have "0 \<le> Length p'" "pages p' (nat pageNum) = Some page"
    using assms(3) by simp_all
  then show "Get p' pageNum = Ok (page, p')"
    using Get_eq [OF assms(1,2), of p'] by simp
next
  fix row j assume "row < RowsPerPage \<and> j < RowSize"
  then show "disk_page (backing p) (nat pageNum) ! row ! j
            = file_byte (backing p) (nat pageNum * PageSize + row * RowSize + j)"
    by (simp add: disk_page_nth)
next
  fix row j assume "row < RowsPerPage \<and> j < RowSize"
  then show "new_Page ! row ! j = 0" by (simp add: new_Page_nth)
qed

theorem Get_load_semantics_witness:
  "Get (NewPager small_file) 0
     = Ok (disk_page small_file 0,
           (NewPager small_file)\<lparr>pages := (pages (NewPager small_file))(0 := Some (disk_page small_file 0))\<rparr>)
   \<and> disk_page small_file 0 ! 0 ! 0 = 2
   \<and> disk_page small_file 0 ! 0 ! 4 = 65
   \<and> disk_page small_file 0 ! 0 ! 5 = 0
   \<and> disk_page small_file 0 ! 13 ! 291 = 0"
proof -
  have h: "(0::int) \<le> 0" "(0::int) < int TableMaxPages" "0 \<le> Length (NewPager small_file)"
    by (simp_all add: TableMaxPages_eq NewPager_def)
  have "pages_on_disk (NewPager small_file) = 1"
    by (simp add: pages_on_disk_def NewPager_def small_file_def PageSize_eq)
  then show ?thesis
    using Get_load_semantics [OF h]
    by (simp add: NewPager_def small_file_def file_byte_def RowsPerPage_eq RowSize_eq PageSize_eq)
qed

end
